theory Spec2Isabelle
  imports Main "HOL-Library.Word"
begin

unbundle bit_operations_syntax

section \<open>The pagemap reader of \<open>bmks/swapnil_scripts/check_mapping.c\<close>\<close>

text \<open>
  \<open>check_mapping.c\<close> translates a virtual address of the calling process into a physical
  address by reading one 8-byte record of \<open>/proc/self/pagemap\<close>. The program is compiled
  for a 64-bit host (it prints \<open>uintptr_t\<close> with \<open>PRIx64\<close> and tests bit 63 of one), so
  \<open>uintptr_t\<close> and \<open>unsigned long\<close> are 64-bit words, \<open>int\<close> is a 32-bit word and
  \<open>unsigned char\<close> is a byte.
\<close>

type_synonym uintptr_t = "64 word"
type_synonym uchar = "8 word"

definition PAGEMAP_ENTRY :: nat where
  [simp]: "PAGEMAP_ENTRY = 8"

definition page_mapping_file :: string where
  "page_mapping_file = ''/proc/self/pagemap''"

subsection \<open>The host\<close>

text \<open>
  Everything the function asks of the operating system and the C library is a field of the
  host:
  \<^item> \<open>fopen_ok\<close>: whether \<open>fopen(page_mapping_file, "rb")\<close> returns a stream;
  \<^item> \<open>getpagesize\<close>: the \<open>int\<close> that \<open>getpagesize()\<close> returns;
  \<^item> \<open>sysconf_PAGESIZE\<close>: the \<open>long\<close> that \<open>sysconf(_SC_PAGESIZE)\<close> returns;
  \<^item> \<open>is_bigendian\<close>: the value of the macro \<open>is_bigendian()\<close>, which looks at the first
    byte of the \<open>int\<close> constant 1;
  \<^item> \<open>fseek_ok\<close>: whether \<open>fseek(f, file_offset, SEEK_SET)\<close> returns 0;
  \<^item> \<open>pagemap_from\<close>: the bytes that successive calls of \<open>getc\<close> deliver after a seek to
    the offset; when they are used up \<open>getc\<close> returns \<open>EOF\<close>.
\<close>

record host =
  fopen_ok :: bool
  getpagesize :: "32 word"
  sysconf_PAGESIZE :: "64 word"
  is_bigendian :: bool
  fseek_ok :: "64 word \<Rightarrow> bool"
  pagemap_from :: "64 word \<Rightarrow> uchar list"

text \<open>
  What the function does besides returning a value is recorded as a list of events, in the
  order of the calls. \<open>Printf fmt args\<close> is a call of \<open>printf\<close> with its format string and
  arguments.
\<close>

datatype arg = Str string | Null | Num "64 word"

datatype event =
    Fopen bool
  | Fseek "64 word"
  | Getc
  | Fclose
  | Printf string "arg list"
  | Perror string

abbreviation newline :: char where
  "newline \<equiv> CHR 0x0A"

subsection \<open>Reading one record\<close>

text \<open>
  The first loop (lines 60 to 77): eight calls of \<open>getc\<close>. A byte goes to \<open>c_buf[i]\<close> on a
  big-endian host and to \<open>c_buf[PAGEMAP_ENTRY - i - 1]\<close> on a little-endian one. On \<open>EOF\<close>
  the stream is closed and the function returns 0, which is the result \<open>None\<close> here.
\<close>

function read_c_buf :: "bool \<Rightarrow> nat \<Rightarrow> uchar list \<Rightarrow> uchar list \<Rightarrow> uchar list option \<times> event list" where
  "read_c_buf be i f c_buf =
     (if i < PAGEMAP_ENTRY then
        (case f of
           [] \<Rightarrow> (None, [Getc, Fclose])
         | c # f' \<Rightarrow>
             (let c_buf' = (if be then c_buf[i := c] else c_buf[PAGEMAP_ENTRY - i - 1 := c]);
                  (r, evs) = read_c_buf be (i + 1) f' c_buf'
              in (r, Getc # evs)))
      else (Some c_buf, []))"
  by pat_completeness auto
termination
  by (relation "measure (\<lambda>(be, i, f, c_buf). PAGEMAP_ENTRY - i)") auto

text \<open>
  The second loop (lines 79 to 82): \<open>read_val = (read_val << 8) + c_buf[i]\<close>, so \<open>c_buf[0]\<close>
  ends up in the most significant byte.
\<close>

function assemble :: "nat \<Rightarrow> uchar list \<Rightarrow> uintptr_t \<Rightarrow> uintptr_t" where
  "assemble i c_buf read_val =
     (if i < PAGEMAP_ENTRY
      then assemble (i + 1) c_buf (push_bit 8 read_val + ucast (c_buf ! i))
      else read_val)"
  by pat_completeness auto
termination
  by (relation "measure (\<lambda>(i, c_buf, read_val). PAGEMAP_ENTRY - i)") auto

text \<open>
  Lines 60 to 82 together: the value of \<open>read_val\<close> at line 84, or \<open>None\<close> when \<open>getc\<close>
  returned \<open>EOF\<close>, with the events of the first loop.
\<close>

definition read_record :: "bool \<Rightarrow> uchar list \<Rightarrow> uintptr_t option \<times> event list" where
  "read_record be f =
     (case read_c_buf be 0 f (replicate PAGEMAP_ENTRY 0) of
        (None, evs) \<Rightarrow> (None, evs)
      | (Some c_buf, evs) \<Rightarrow> (Some (assemble 0 c_buf 0), evs))"

text \<open>Line 85, \<open>read_val & (1ULL << 63)\<close>, and line 86, \<open>read_val & ((1ULL << 55) - 1)\<close>.\<close>

definition page_present :: "uintptr_t \<Rightarrow> bool" where
  "page_present read_val \<longleftrightarrow> read_val AND push_bit 63 1 \<noteq> 0"

definition pfn_mask :: "uintptr_t \<Rightarrow> uintptr_t" where
  "pfn_mask read_val = read_val AND (push_bit 55 1 - 1)"

subsection \<open>\<open>virtual_to_physical_address\<close>\<close>

text \<open>
  The result is the returned word and the events, or \<open>None\<close> where the C program has no
  defined behaviour: \<open>virt_addr / getpagesize()\<close> divides by zero when \<open>getpagesize()\<close> is 0.
  In that division the \<open>int\<close> is converted to \<open>uintptr_t\<close> (sign-extended); in lines 87 and
  89 the \<open>long\<close> of \<open>sysconf\<close> is converted to \<open>uintptr_t\<close>, which keeps its bits (the
  subtraction of line 89 is done on the \<open>long\<close>, with the same bits as on the word unless
  the \<open>long\<close> is the least one).
  \<open>c_buf\<close> is not initialised in the source; the model starts it with zeros, and
  \<open>read_c_buf\<close> overwrites all eight bytes before the second loop reads them.
\<close>

definition open_error :: event where
  "open_error =
     Printf (''Error! Cannot open %s. Please, run as root.'' @ [newline]) [Str page_mapping_file]"

definition seek_error :: event where
  "seek_error = Printf (''Error! Cannot seek in %s.'' @ [newline]) [Str page_mapping_file]"

definition not_present :: event where
  "not_present = Printf (''Page not present'' @ [newline]) []"

definition virtual_to_physical_address :: "host \<Rightarrow> uintptr_t \<Rightarrow> (uintptr_t \<times> event list) option" where
  "virtual_to_physical_address h virt_addr =
     (if \<not> fopen_ok h then Some (0, [Fopen False, open_error])
      else if getpagesize h = 0 then None
      else
        (let file_offset = virt_addr div scast (getpagesize h) * 8 in
         if \<not> fseek_ok h file_offset then
           Some (0, [Fopen True, Fseek file_offset, seek_error, Perror ''Failed to do fseek!'', Fclose])
         else
           (case read_record (is_bigendian h) (pagemap_from h file_offset) of
              (None, evs) \<Rightarrow> Some (0, [Fopen True, Fseek file_offset] @ evs)
            | (Some read_val, evs) \<Rightarrow>
                if page_present read_val then
                  (let read_val = pfn_mask read_val;
                       read_val = read_val * sysconf_PAGESIZE h;
                       read_val = read_val OR (virt_addr AND (sysconf_PAGESIZE h - 1))
                   in Some (read_val, [Fopen True, Fseek file_offset] @ evs @ [Fclose]))
                else
                  Some (read_val, [Fopen True, Fseek file_offset] @ evs @ [not_present, Fclose]))))"

subsection \<open>\<open>main\<close>\<close>

text \<open>
  The standard input is the list of what successive calls of \<open>scanf("%lx", &addr)\<close> find:
  \<open>Scanned a\<close> when the conversion succeeds (\<open>scanf\<close> stores \<open>a\<close> and returns 1),
  \<open>Mismatch\<close> when the next characters are no hexadecimal number (\<open>scanf\<close> returns 0); at
  the end of the list \<open>scanf\<close> returns \<open>EOF\<close>. The conversion of the text itself is the C
  library's. The program is compiled with assertions, so \<open>assert(ret == 1)\<close> aborts the
  process when \<open>scanf\<close> returns anything but 1.
\<close>

datatype scan = Scanned "64 word" | Mismatch

datatype status = Exited int | Aborted | Undefined

definition PRIx64 :: string where
  "PRIx64 = ''lx''"

definition prompt :: event where
  "prompt = Printf ''addr:'' []"

definition report :: "uintptr_t \<Rightarrow> uintptr_t \<Rightarrow> event" where
  "report addr phys_addr =
     Printf (''vaddr:%lx, paddr:%'' @ PRIx64 @ [newline]) [Num addr, Num phys_addr]"

text \<open>The loop of lines 106 to 112; \<open>addr\<close> is the value the condition \<open>addr > 0\<close> tests.\<close>

fun main_loop :: "host \<Rightarrow> uintptr_t \<Rightarrow> scan list \<Rightarrow> status \<times> event list" where
  "main_loop h addr inp =
     (if addr > 0 then
        (case inp of
           [] \<Rightarrow> (Aborted, [prompt])
         | Mismatch # inp' \<Rightarrow> (Aborted, [prompt])
         | Scanned addr' # inp' \<Rightarrow>
             (case virtual_to_physical_address h addr' of
                None \<Rightarrow> (Undefined, [prompt])
              | Some (phys_addr, evs) \<Rightarrow>
                  (let (st, evs') = main_loop h addr' inp'
                   in (st, [prompt] @ evs @ [report addr' phys_addr] @ evs'))))
      else (Exited 0, []))"

text \<open>
  \<open>argv[i]\<close> is a string for \<open>i < argc\<close> and the null pointer for \<open>i = argc\<close>.
  \<open>stack_addr\<close> is \<open>&addr\<close>. The arguments of the second \<open>printf\<close> are evaluated before
  it is called.
\<close>

definition argv_arg :: "string list \<Rightarrow> nat \<Rightarrow> arg" where
  "argv_arg argv i = (if i < length argv then Str (argv ! i) else Null)"

definition main :: "host \<Rightarrow> string list \<Rightarrow> uintptr_t \<Rightarrow> scan list \<Rightarrow> status \<times> event list" where
  "main h argv stack_addr inp =
     (let e1 = Printf (''Command line arguments :%s %s'' @ [newline]) [argv_arg argv 0, argv_arg argv 1] in
      case virtual_to_physical_address h stack_addr of
        None \<Rightarrow> (Undefined, [e1])
      | Some (phys_addr, evs) \<Rightarrow>
          (let e2 = Printf (''stack is around here vaddr:%p paddr:%'' @ PRIx64 @ [newline])
                           [Num stack_addr, Num phys_addr];
               (st, evs') = main_loop h 1 inp
           in (st, [e1] @ evs @ [e2] @ evs')))"

text \<open>
  The events of the driver piece by piece. \<open>startup\<close> is lines 104 and 105: the first
  \<open>printf\<close>, the call of \<open>virtual_to_physical_address\<close> on \<open>&addr\<close> and the second
  \<open>printf\<close>. \<open>loop_round h a\<close> is lines 107 to 111 of a round in which \<open>scanf\<close> stores
  \<open>a\<close>: the prompt, the call of \<open>virtual_to_physical_address\<close> on \<open>a\<close> and the \<open>printf\<close>
  of \<open>a\<close> and the word returned.
\<close>

definition startup :: "host \<Rightarrow> string list \<Rightarrow> uintptr_t \<Rightarrow> event list" where
  "startup h argv stack_addr =
     (case virtual_to_physical_address h stack_addr of
        None \<Rightarrow> [Printf (''Command line arguments :%s %s'' @ [newline]) [argv_arg argv 0, argv_arg argv 1]]
      | Some (phys_addr, evs) \<Rightarrow>
          [Printf (''Command line arguments :%s %s'' @ [newline]) [argv_arg argv 0, argv_arg argv 1]] @
          evs @
          [Printf (''stack is around here vaddr:%p paddr:%'' @ PRIx64 @ [newline])
                  [Num stack_addr, Num phys_addr]])"

definition loop_round :: "host \<Rightarrow> uintptr_t \<Rightarrow> event list" where
  "loop_round h a =
     (case virtual_to_physical_address h a of
        None \<Rightarrow> [prompt]
      | Some (phys_addr, evs) \<Rightarrow> [prompt] @ evs @ [report a phys_addr])"

subsection \<open>Hosts to run the program on\<close>

text \<open>
  The bytes of a 64-bit value in memory: least significant byte first on a little-endian
  machine, most significant byte first on a big-endian one. The kernel writes each pagemap
  record as a 64-bit value in the byte order of the machine.
\<close>

definition le_bytes :: "uintptr_t \<Rightarrow> uchar list" where
  "le_bytes v = map (\<lambda>i. ucast (drop_bit (8 * i) v)) [0..<8]"

definition be_bytes :: "uintptr_t \<Rightarrow> uchar list" where
  "be_bytes v = rev (le_bytes v)"

text \<open>
  \<open>host_with be v\<close> has pages of 4096 bytes, opens the file, seeks anywhere, and holds the
  record \<open>v\<close> for every page, in its own byte order. \<open>truncated n h\<close> ends the file \<open>n\<close>
  bytes after every offset, \<open>unseekable h\<close> fails every \<open>fseek\<close>.
\<close>

definition host_with :: "bool \<Rightarrow> uintptr_t \<Rightarrow> host" where
  "host_with be v =
     \<lparr>fopen_ok = True, getpagesize = 4096, sysconf_PAGESIZE = 4096, is_bigendian = be,
      fseek_ok = (\<lambda>off. True),
      pagemap_from = (\<lambda>off. if be then be_bytes v else le_bytes v)\<rparr>"

definition truncated :: "nat \<Rightarrow> host \<Rightarrow> host" where
  "truncated n h = h\<lparr>pagemap_from := (\<lambda>off. take n (pagemap_from h off))\<rparr>"

definition unseekable :: "host \<Rightarrow> host" where
  "unseekable h = h\<lparr>fseek_ok := (\<lambda>off. False)\<rparr>"

section \<open>The two loops\<close>

declare read_c_buf.simps [simp del] assemble.simps [simp del]

lemma list8_conv:
  "length xs = 8 \<longleftrightarrow> (\<exists>x0 x1 x2 x3 x4 x5 x6 x7. xs = [x0, x1, x2, x3, x4, x5, x6, x7])"
  by (auto simp: numeral_eq_Suc length_Suc_conv)

lemma read_c_buf_big:
  "read_c_buf True 0 (b0 # b1 # b2 # b3 # b4 # b5 # b6 # b7 # rest) (replicate 8 0)
     = (Some [b0, b1, b2, b3, b4, b5, b6, b7], replicate 8 Getc)"
  by (simp add: read_c_buf.simps numeral_eq_Suc)

lemma read_c_buf_little:
  "read_c_buf False 0 (b0 # b1 # b2 # b3 # b4 # b5 # b6 # b7 # rest) (replicate 8 0)
     = (Some [b7, b6, b5, b4, b3, b2, b1, b0], replicate 8 Getc)"
  by (simp add: read_c_buf.simps numeral_eq_Suc)

lemma read_c_buf_full:
  assumes "8 \<le> length f"
  shows "read_c_buf be 0 f (replicate 8 0) =
           (Some (if be then take 8 f else rev (take 8 f)), replicate 8 Getc)"
proof -
  have "length (take 8 f) = 8" using assms by simp
  then obtain b0 b1 b2 b3 b4 b5 b6 b7 where t: "take 8 f = [b0, b1, b2, b3, b4, b5, b6, b7]"
    unfolding list8_conv by blast
  have "f = take 8 f @ drop 8 f" by simp
  then have f: "f = b0 # b1 # b2 # b3 # b4 # b5 # b6 # b7 # drop 8 f"
    unfolding t by simp
  show ?thesis
    unfolding t by (subst f, cases be) (simp_all add: read_c_buf_big read_c_buf_little)
qed

lemma read_c_buf_short:
  "i + length f < 8 \<Longrightarrow>
     read_c_buf be i f c_buf = (None, replicate (Suc (length f)) Getc @ [Fclose])"
proof (induction f arbitrary: i c_buf)
  case Nil
  then show ?case by (simp add: read_c_buf.simps)
next
  case (Cons c f)
  then show ?case by (subst read_c_buf.simps) simp
qed

lemma assemble_8:
  "assemble 0 [a0, a1, a2, a3, a4, a5, a6, a7] 0 =
     push_bit 56 (ucast a0) + push_bit 48 (ucast a1) + push_bit 40 (ucast a2) + push_bit 32 (ucast a3)
   + push_bit 24 (ucast a4) + push_bit 16 (ucast a5) + push_bit 8 (ucast a6) + ucast a7"
  by (simp add: assemble.simps numeral_eq_Suc push_bit_add)

lemma horner_or: "push_bit 8 (r :: uintptr_t) + ucast (c :: uchar) = push_bit 8 r OR ucast c"
  by (rule disjunctive_add) (auto simp: bit_simps dest: bit_imp_le_length)

lemma assemble_8_or:
  "assemble 0 [a0, a1, a2, a3, a4, a5, a6, a7] 0 =
     push_bit 56 (ucast a0) OR push_bit 48 (ucast a1) OR push_bit 40 (ucast a2) OR push_bit 32 (ucast a3)
   OR push_bit 24 (ucast a4) OR push_bit 16 (ucast a5) OR push_bit 8 (ucast a6) OR ucast a7"
proof -
  have "assemble 0 [a0, a1, a2, a3, a4, a5, a6, a7] 0 =
     push_bit 8 (push_bit 8 (push_bit 8 (push_bit 8 (push_bit 8 (push_bit 8 (push_bit 8
       (push_bit 8 0 + ucast a0) + ucast a1) + ucast a2) + ucast a3) + ucast a4) + ucast a5) + ucast a6) + ucast a7"
    by (simp add: assemble.simps)
  also have "\<dots> =
     push_bit 8 (push_bit 8 (push_bit 8 (push_bit 8 (push_bit 8 (push_bit 8 (push_bit 8
       (push_bit 8 0 OR ucast a0) OR ucast a1) OR ucast a2) OR ucast a3) OR ucast a4) OR ucast a5) OR ucast a6) OR ucast a7"
    by (simp only: horner_or)
  also have "\<dots> =
     push_bit 56 (ucast a0) OR push_bit 48 (ucast a1) OR push_bit 40 (ucast a2) OR push_bit 32 (ucast a3)
   OR push_bit 24 (ucast a4) OR push_bit 16 (ucast a5) OR push_bit 8 (ucast a6) OR ucast a7"
    by (simp add: push_bit_or or.assoc)
  finally show ?thesis .
qed

lemma le_bytes_unfold:
  "le_bytes v = [ucast v, ucast (drop_bit 8 v), ucast (drop_bit 16 v), ucast (drop_bit 24 v),
     ucast (drop_bit 32 v), ucast (drop_bit 40 v), ucast (drop_bit 48 v), ucast (drop_bit 56 v)]"
  by (simp add: le_bytes_def upt_rec)

lemma length_le_bytes [simp]: "length (le_bytes v) = 8"
  by (simp add: le_bytes_def)

lemma length_be_bytes [simp]: "length (be_bytes v) = 8"
  by (simp add: be_bytes_def)

lemma ucast_byte: "(ucast (ucast x :: uchar) :: uintptr_t) = take_bit 8 x"
  by (rule bit_word_eqI) (auto simp: bit_simps)

lemma horner_step:
  "push_bit 8 (drop_bit (n + 8) v) + (ucast (ucast (drop_bit n v) :: uchar) :: uintptr_t) = drop_bit n v"
  using bits_ident [of 8 "drop_bit n v"] by (simp add: ucast_byte add.commute)

lemma drop_bit_64: "drop_bit 64 (v :: uintptr_t) = 0"
  by (rule bit_word_eqI) (auto simp: bit_simps dest: bit_imp_le_length)

lemma assemble_be_bytes: "assemble 0 (be_bytes v) 0 = v"
proof -
  note s = horner_step [of _ v]
  show ?thesis
    using s [of 56] s [of 48] s [of 40] s [of 32] s [of 24] s [of 16] s [of 8] s [of 0]
    by (simp add: be_bytes_def le_bytes_unfold assemble.simps drop_bit_64)
qed

lemma be_bytes_assemble:
  "be_bytes (assemble 0 [a0, a1, a2, a3, a4, a5, a6, a7] 0) = [a0, a1, a2, a3, a4, a5, a6, a7]"
proof -
  let ?v = "assemble 0 [a0, a1, a2, a3, a4, a5, a6, a7] 0"
  have "ucast (drop_bit 56 ?v) = a0" "ucast (drop_bit 48 ?v) = a1" "ucast (drop_bit 40 ?v) = a2"
    "ucast (drop_bit 32 ?v) = a3" "ucast (drop_bit 24 ?v) = a4" "ucast (drop_bit 16 ?v) = a5"
    "ucast (drop_bit 8 ?v) = a6" "ucast ?v = a7"
    unfolding assemble_8_or
    by (rule bit_word_eqI; auto simp: bit_simps dest: bit_imp_le_length)+
  then show ?thesis
    by (simp add: be_bytes_def le_bytes_unfold)
qed

lemma read_record_full:
  "8 \<le> length f \<Longrightarrow>
     read_record be f = (Some (assemble 0 (if be then take 8 f else rev (take 8 f)) 0), replicate 8 Getc)"
  by (simp add: read_record_def read_c_buf_full)

lemma read_record_short:
  "length f < 8 \<Longrightarrow> read_record be f = (None, replicate (Suc (length f)) Getc @ [Fclose])"
  by (simp add: read_record_def read_c_buf_short)

lemma read_record_native:
  "read_record be (if be then be_bytes v else le_bytes v) = (Some v, replicate 8 Getc)"
proof -
  have "rev (le_bytes v) = be_bytes v" by (simp add: be_bytes_def)
  then show ?thesis
    by (simp add: read_record_full assemble_be_bytes)
qed

lemma page_present_bit: "page_present read_val \<longleftrightarrow> bit read_val 63"
  unfolding page_present_def push_bit_of_1 by (simp only: and_exp_eq_0_iff_not_bit not_not)

lemma pfn_mask_take_bit: "pfn_mask read_val = take_bit 55 read_val"
  by (simp add: pfn_mask_def take_bit_eq_mask mask_eq_exp_minus_1)

section \<open>The decoding of a record\<close>

text \<open>
  Claim C2. Whenever the eight bytes read assemble to a value with bit 63 set, the test of
  line 85 finds the page present and the mask of line 86 leaves the value AND
  \<open>0x007FFFFFFFFFFFFF\<close>, which is its low 55 bits. The record \<open>0x8000000000000001\<close>, in
  the byte order of either kind of host, is present with page frame number 1.
\<close>

theorem decode_present:
  assumes "length raw = PAGEMAP_ENTRY"
    and "read_record be raw = (Some read_val, evs)"
    and "bit read_val 63"
  shows "page_present read_val
       \<and> pfn_mask read_val = read_val AND 0x007FFFFFFFFFFFFF
       \<and> pfn_mask read_val = take_bit 55 read_val
       \<and> read_record False [1, 0, 0, 0, 0, 0, 0, 0x80] = (Some 0x8000000000000001, replicate 8 Getc)
       \<and> read_record True [0x80, 0, 0, 0, 0, 0, 0, 1] = (Some 0x8000000000000001, replicate 8 Getc)
       \<and> page_present 0x8000000000000001
       \<and> pfn_mask 0x8000000000000001 = 1"
proof -
  have "page_present read_val"
    using assms(3) by (simp add: page_present_bit)
  moreover have "pfn_mask read_val = read_val AND 0x007FFFFFFFFFFFFF"
    by (simp add: pfn_mask_def)
  moreover have "read_record False [1, 0, 0, 0, 0, 0, 0, 0x80] = (Some 0x8000000000000001, replicate 8 Getc)"
    by (simp add: read_record_full assemble_8)
  moreover have "read_record True [0x80, 0, 0, 0, 0, 0, 0, 1] = (Some 0x8000000000000001, replicate 8 Getc)"
    by (simp add: read_record_full assemble_8)
  moreover have "page_present 0x8000000000000001"
    by (simp add: page_present_def)
  moreover have "pfn_mask 0x8000000000000001 = 1"
    by (simp add: pfn_mask_def)
  ultimately show ?thesis
    by (simp add: pfn_mask_take_bit)
qed

theorem decode_present_witness:
  "length [0x23, 0x01, 0, 0, 0, 0, 0x80, 0x81 :: uchar] = PAGEMAP_ENTRY
   \<and> read_record False [0x23, 0x01, 0, 0, 0, 0, 0x80, 0x81] = (Some 0x8180000000000123, replicate 8 Getc)
   \<and> bit (0x8180000000000123 :: uintptr_t) 63
   \<and> page_present 0x8180000000000123
   \<and> pfn_mask 0x8180000000000123 = 0x123"
proof -
  have l: "length [0x23, 0x01, 0, 0, 0, 0, 0x80, 0x81 :: uchar] = PAGEMAP_ENTRY"
    by simp
  have r: "read_record False [0x23, 0x01, 0, 0, 0, 0, 0x80, 0x81] = (Some 0x8180000000000123, replicate 8 Getc)"
    by (simp add: read_record_full assemble_8)
  have b: "bit (0x8180000000000123 :: uintptr_t) 63"
    by simp
  show ?thesis
    using l r b decode_present [OF l r b] by simp
qed

text \<open>
  Claim C4. The first loop stores the bytes in file order on a big-endian host and in
  reverse order on a little-endian one, and the second loop puts \<open>c_buf[0]\<close> on top: so
  byte 0 of the file is the most significant byte of the value on a big-endian host and
  byte 7 is on a little-endian host. A 64-bit value written in the byte order of the host
  is read back as itself on either kind of host, hence with the same present bit and the
  same page frame number.
\<close>

theorem endianness_correction:
  "read_record True [b0, b1, b2, b3, b4, b5, b6, b7] =
     (Some (push_bit 56 (ucast b0) OR push_bit 48 (ucast b1) OR push_bit 40 (ucast b2) OR
            push_bit 32 (ucast b3) OR push_bit 24 (ucast b4) OR push_bit 16 (ucast b5) OR
            push_bit 8 (ucast b6) OR ucast b7), replicate 8 Getc)
   \<and> read_record False [b0, b1, b2, b3, b4, b5, b6, b7] =
     (Some (push_bit 56 (ucast b7) OR push_bit 48 (ucast b6) OR push_bit 40 (ucast b5) OR
            push_bit 32 (ucast b4) OR push_bit 24 (ucast b3) OR push_bit 16 (ucast b2) OR
            push_bit 8 (ucast b1) OR ucast b0), replicate 8 Getc)
   \<and> read_record True (be_bytes v) = (Some v, replicate 8 Getc)
   \<and> read_record False (le_bytes v) = (Some v, replicate 8 Getc)
   \<and> read_record True (be_bytes v) = read_record False (le_bytes v)"
proof -
  have "read_record True (be_bytes v) = (Some v, replicate 8 Getc)"
    using read_record_native [of True v] by simp
  moreover have "read_record False (le_bytes v) = (Some v, replicate 8 Getc)"
    using read_record_native [of False v] by simp
  ultimately show ?thesis
    by (simp add: read_record_full assemble_8_or)
qed

lemma scast_nonneg: "\<not> bit (x :: 32 word) 31 \<Longrightarrow> (scast x :: 64 word) = ucast x"
proof (rule bit_word_eqI)
  fix n assume a: "\<not> bit x 31" "n < LENGTH(64)"
  show "bit (scast x :: 64 word) n = bit (ucast x :: 64 word) n"
  proof (cases "n < 31")
    case True
    then show ?thesis by (simp add: bit_simps min_def)
  next
    case False
    then have "\<not> bit x n"
      using a(1) bit_imp_le_length [of x n] by (cases "n = 31") auto
    with False a show ?thesis by (simp add: bit_simps min_def)
  qed
qed

lemma offset_exact:
  fixes va :: "64 word" and ps :: "32 word"
  assumes "\<not> bit ps 31" "8 \<le> unat ps"
  shows "unat (va div scast ps * 8) = unat va div unat ps * 8"
proof -
  have "unat ps < 2 ^ 32" using unsigned_less [of ps] by simp
  then have "unat ps < 2 ^ 64" by simp
  then have c: "unat (scast ps :: 64 word) = unat ps"
    using assms(1) by (simp add: scast_nonneg unsigned_ucast_eq take_bit_nat_eq_self)
  have "unat va div unat ps \<le> unat va div 8"
    using assms(2) by (simp add: div_le_mono2)
  moreover have "unat va < 2 ^ 64" using unsigned_less [of va] by simp
  ultimately have "unat va div unat ps * 8 < 2 ^ 64" by simp
  then show ?thesis
    by (simp add: unat_word_ariths unat_div c)
qed

section \<open>The exit paths of \<open>virtual_to_physical_address\<close>\<close>

lemma v2p_open_fails:
  "\<not> fopen_ok h \<Longrightarrow> virtual_to_physical_address h virt_addr = Some (0, [Fopen False, open_error])"
  by (simp add: virtual_to_physical_address_def)

lemma v2p_seek_fails:
  "fopen_ok h \<Longrightarrow> getpagesize h \<noteq> 0 \<Longrightarrow> \<not> fseek_ok h (virt_addr div scast (getpagesize h) * 8) \<Longrightarrow>
   virtual_to_physical_address h virt_addr =
     Some (0, [Fopen True, Fseek (virt_addr div scast (getpagesize h) * 8), seek_error,
               Perror ''Failed to do fseek!'', Fclose])"
  by (simp add: virtual_to_physical_address_def)

lemma v2p_eof:
  "fopen_ok h \<Longrightarrow> getpagesize h \<noteq> 0 \<Longrightarrow> fseek_ok h (virt_addr div scast (getpagesize h) * 8) \<Longrightarrow>
   length (pagemap_from h (virt_addr div scast (getpagesize h) * 8)) < 8 \<Longrightarrow>
   virtual_to_physical_address h virt_addr =
     Some (0, [Fopen True, Fseek (virt_addr div scast (getpagesize h) * 8)] @
              replicate (Suc (length (pagemap_from h (virt_addr div scast (getpagesize h) * 8)))) Getc @
              [Fclose])"
  by (simp add: virtual_to_physical_address_def read_record_short Let_def)

lemma v2p_present:
  "fopen_ok h \<Longrightarrow> getpagesize h \<noteq> 0 \<Longrightarrow> fseek_ok h (virt_addr div scast (getpagesize h) * 8) \<Longrightarrow>
   read_record (is_bigendian h) (pagemap_from h (virt_addr div scast (getpagesize h) * 8)) = (Some read_val, evs) \<Longrightarrow>
   page_present read_val \<Longrightarrow>
   virtual_to_physical_address h virt_addr =
     Some (pfn_mask read_val * sysconf_PAGESIZE h OR (virt_addr AND (sysconf_PAGESIZE h - 1)),
           [Fopen True, Fseek (virt_addr div scast (getpagesize h) * 8)] @ evs @ [Fclose])"
  by (simp add: virtual_to_physical_address_def)

lemma v2p_absent:
  "fopen_ok h \<Longrightarrow> getpagesize h \<noteq> 0 \<Longrightarrow> fseek_ok h (virt_addr div scast (getpagesize h) * 8) \<Longrightarrow>
   read_record (is_bigendian h) (pagemap_from h (virt_addr div scast (getpagesize h) * 8)) = (Some read_val, evs) \<Longrightarrow>
   \<not> page_present read_val \<Longrightarrow>
   virtual_to_physical_address h virt_addr =
     Some (read_val,
           [Fopen True, Fseek (virt_addr div scast (getpagesize h) * 8)] @ evs @ [not_present, Fclose])"
  by (simp add: virtual_to_physical_address_def)

lemma read_record_Some_events:
  assumes "read_record be f = (Some read_val, evs)"
  shows "evs = replicate 8 Getc"
proof (cases "length f < 8")
  case True
  then show ?thesis using assms by (simp add: read_record_short)
next
  case False
  then show ?thesis using assms by (simp add: read_record_full)
qed

text \<open>The host of the examples: \<open>host_with be v\<close> at any address.\<close>

lemma v2p_host_with:
  "virtual_to_physical_address (host_with be v) virt_addr =
     (if page_present v
      then Some (pfn_mask v * 4096 OR (virt_addr AND 4095),
                 [Fopen True, Fseek (virt_addr div 4096 * 8)] @ replicate 8 Getc @ [Fclose])
      else Some (v, [Fopen True, Fseek (virt_addr div 4096 * 8)] @ replicate 8 Getc @
                    [not_present, Fclose]))"
proof -
  have r: "read_record (is_bigendian (host_with be v)) (pagemap_from (host_with be v) off) =
             (Some v, replicate 8 Getc)" for off
    using read_record_native [of be v] by (simp add: host_with_def)
  show ?thesis
    unfolding virtual_to_physical_address_def Let_def r
    by (simp add: host_with_def)
qed

section \<open>Resident and non-resident pages\<close>

text \<open>
  Claim C1. When the file opens, the seek succeeds, eight bytes are read and the value they
  assemble to has bit 63 set, the function returns the page frame number times the page
  size, OR-ed with the virtual address AND (page size - 1), in 64-bit arithmetic; it makes
  eight calls of \<open>getc\<close> and prints nothing. With pages of 4096 bytes, page frame number
  \<open>0x123\<close> and virtual address \<open>0x456789\<close> it returns \<open>0x123789\<close>, on a host of either
  byte order.
\<close>

theorem resident_physical_address:
  assumes "fopen_ok h" and "getpagesize h \<noteq> 0"
    and "fseek_ok h (virt_addr div scast (getpagesize h) * 8)"
    and "read_record (is_bigendian h) (pagemap_from h (virt_addr div scast (getpagesize h) * 8))
           = (Some read_val, evs)"
    and "bit read_val 63"
  shows "virtual_to_physical_address h virt_addr =
           Some (pfn_mask read_val * sysconf_PAGESIZE h OR (virt_addr AND (sysconf_PAGESIZE h - 1)),
                 [Fopen True, Fseek (virt_addr div scast (getpagesize h) * 8)] @
                 replicate 8 Getc @ [Fclose])
       \<and> pfn_mask read_val = take_bit 55 read_val
       \<and> pfn_mask 0x8000000000000123 = 0x123
       \<and> virtual_to_physical_address (host_with False 0x8000000000000123) 0x456789 =
           Some (0x123789, [Fopen True, Fseek 0x22B0] @ replicate 8 Getc @ [Fclose])
       \<and> virtual_to_physical_address (host_with True 0x8000000000000123) 0x456789 =
           Some (0x123789, [Fopen True, Fseek 0x22B0] @ replicate 8 Getc @ [Fclose])"
proof -
  have "evs = replicate 8 Getc"
    using assms(4) by (rule read_record_Some_events)
  moreover have "page_present read_val"
    using assms(5) by (simp add: page_present_bit)
  ultimately have "virtual_to_physical_address h virt_addr =
           Some (pfn_mask read_val * sysconf_PAGESIZE h OR (virt_addr AND (sysconf_PAGESIZE h - 1)),
                 [Fopen True, Fseek (virt_addr div scast (getpagesize h) * 8)] @
                 replicate 8 Getc @ [Fclose])"
    using v2p_present [OF assms(1-4)] by simp
  moreover have "pfn_mask 0x8000000000000123 = 0x123"
    by (simp add: pfn_mask_def)
  moreover have "virtual_to_physical_address (host_with be 0x8000000000000123) 0x456789 =
           Some (0x123789, [Fopen True, Fseek 0x22B0] @ replicate 8 Getc @ [Fclose])" for be
    by (simp add: v2p_host_with page_present_def pfn_mask_def)
  ultimately show ?thesis
    by (simp add: pfn_mask_take_bit)
qed

theorem resident_physical_address_witness:
  "fopen_ok (host_with False 0x8180000000000123)
   \<and> getpagesize (host_with False 0x8180000000000123) \<noteq> 0
   \<and> fseek_ok (host_with False 0x8180000000000123) 0x22B0
   \<and> read_record False (pagemap_from (host_with False 0x8180000000000123) 0x22B0)
        = (Some 0x8180000000000123, replicate 8 Getc)
   \<and> bit (0x8180000000000123 :: uintptr_t) 63
   \<and> virtual_to_physical_address (host_with False 0x8180000000000123) 0x456789 =
        Some (0x123789, [Fopen True, Fseek 0x22B0] @ replicate 8 Getc @ [Fclose])"
proof -
  let ?h = "host_with False 0x8180000000000123"
  have o: "fopen_ok ?h" and p: "getpagesize ?h \<noteq> 0"
    by (simp_all add: host_with_def)
  have off: "(0x456789 :: uintptr_t) div scast (getpagesize ?h) * 8 = 0x22B0"
    by (simp add: host_with_def)
  have s: "fseek_ok ?h (0x456789 div scast (getpagesize ?h) * 8)"
    by (simp add: host_with_def)
  have r: "read_record (is_bigendian ?h) (pagemap_from ?h (0x456789 div scast (getpagesize ?h) * 8))
             = (Some 0x8180000000000123, replicate 8 Getc)"
    using read_record_native [of False "0x8180000000000123"] by (simp add: host_with_def)
  have b: "bit (0x8180000000000123 :: uintptr_t) 63"
    by simp
  have "pfn_mask 0x8180000000000123 * sysconf_PAGESIZE ?h OR (0x456789 AND (sysconf_PAGESIZE ?h - 1))
          = 0x123789"
    by (simp add: pfn_mask_def host_with_def)
  then show ?thesis
    using o p s r b resident_physical_address [OF o p s r b] by (simp add: off host_with_def)
qed

text \<open>
  Claim C3, as the code has it. When the value assembled from the eight bytes has bit 63
  clear, whatever its other bits, the test of line 85 fails: the function prints
  \<open>Page not present\<close>, applies neither the mask nor the multiplication, closes the file
  and returns the assembled word itself. The function has no value that stands for a page
  that is not resident: its result is a \<open>uintptr_t\<close>. The record of eight zero bytes is
  not present.
\<close>

theorem nonresident_report:
  assumes "fopen_ok h" and "getpagesize h \<noteq> 0"
    and "fseek_ok h (virt_addr div scast (getpagesize h) * 8)"
    and "read_record (is_bigendian h) (pagemap_from h (virt_addr div scast (getpagesize h) * 8))
           = (Some read_val, evs)"
    and "\<not> bit read_val 63"
  shows "\<not> page_present read_val
       \<and> virtual_to_physical_address h virt_addr =
           Some (read_val,
                 [Fopen True, Fseek (virt_addr div scast (getpagesize h) * 8)] @ replicate 8 Getc @
                 [Printf (''Page not present'' @ [newline]) [], Fclose])
       \<and> read_record be (replicate 8 0) = (Some 0, replicate 8 Getc)
       \<and> \<not> page_present 0"
proof -
  have e: "evs = replicate 8 Getc"
    using assms(4) by (rule read_record_Some_events)
  have n: "\<not> page_present read_val"
    using assms(5) by (simp add: page_present_bit)
  have "virtual_to_physical_address h virt_addr =
           Some (read_val,
                 [Fopen True, Fseek (virt_addr div scast (getpagesize h) * 8)] @ replicate 8 Getc @
                 [Printf (''Page not present'' @ [newline]) [], Fclose])"
    using v2p_absent [OF assms(1-4) n] e by (simp add: not_present_def)
  moreover have "read_record be (replicate 8 0) = (Some 0, replicate 8 Getc)"
    by (cases be) (simp_all add: read_record_full numeral_eq_Suc assemble_8 [unfolded numeral_eq_Suc])
  moreover have "\<not> page_present 0"
    by (simp add: page_present_def)
  ultimately show ?thesis
    using n by simp
qed

theorem nonresident_report_witness:
  "fopen_ok (host_with False 0x0000000000ABC123)
   \<and> getpagesize (host_with False 0x0000000000ABC123) \<noteq> 0
   \<and> fseek_ok (host_with False 0x0000000000ABC123) 0x22B0
   \<and> read_record False (pagemap_from (host_with False 0x0000000000ABC123) 0x22B0)
        = (Some 0x0000000000ABC123, replicate 8 Getc)
   \<and> \<not> bit (0x0000000000ABC123 :: uintptr_t) 63
   \<and> \<not> page_present 0x0000000000ABC123
   \<and> virtual_to_physical_address (host_with False 0x0000000000ABC123) 0x456789 =
        Some (0x0000000000ABC123,
              [Fopen True, Fseek 0x22B0] @ replicate 8 Getc @
              [Printf (''Page not present'' @ [newline]) [], Fclose])"
proof -
  let ?h = "host_with False 0x0000000000ABC123"
  have o: "fopen_ok ?h" and p: "getpagesize ?h \<noteq> 0"
    by (simp_all add: host_with_def)
  have off: "(0x456789 :: uintptr_t) div scast (getpagesize ?h) * 8 = 0x22B0"
    by (simp add: host_with_def)
  have s: "fseek_ok ?h (0x456789 div scast (getpagesize ?h) * 8)"
    by (simp add: host_with_def)
  have r: "read_record (is_bigendian ?h) (pagemap_from ?h (0x456789 div scast (getpagesize ?h) * 8))
             = (Some 0x0000000000ABC123, replicate 8 Getc)"
    using read_record_native [of False "0x0000000000ABC123"] by (simp add: host_with_def)
  have b: "\<not> bit (0x0000000000ABC123 :: uintptr_t) 63"
    by simp
  show ?thesis
    using o p s r b nonresident_report [OF o p s r b] by (simp add: off host_with_def)
qed

text \<open>
  The word returned for a page that is not present can be the word returned for a resident
  page: at the virtual address \<open>0x123\<close> the record \<open>0xABC123\<close>, which is not present, and
  the record \<open>0x8000000000000ABC\<close>, which is present with page frame number \<open>0xABC\<close>, both
  make the function return \<open>0xABC123\<close>.
\<close>

theorem nonresident_word_like_resident:
  "\<not> page_present 0x0000000000ABC123
   \<and> map_option fst (virtual_to_physical_address (host_with False 0x0000000000ABC123) 0x123)
        = Some 0xABC123
   \<and> page_present 0x8000000000000ABC
   \<and> map_option fst (virtual_to_physical_address (host_with False 0x8000000000000ABC) 0x123)
        = Some 0xABC123"
proof -
  have n: "\<not> page_present 0x0000000000ABC123"
    by (simp add: page_present_def)
  have p: "page_present 0x8000000000000ABC"
    by (simp add: page_present_def)
  have "map_option fst (virtual_to_physical_address (host_with False 0x0000000000ABC123) 0x123)
          = Some 0xABC123"
    unfolding v2p_host_with using n by simp
  moreover have "map_option fst (virtual_to_physical_address (host_with False 0x8000000000000ABC) 0x123)
          = Some 0xABC123"
    unfolding v2p_host_with using p by (simp add: pfn_mask_def)
  ultimately show ?thesis
    using n p by blast
qed

lemma assemble_zero_iff:
  assumes "length bs = 8"
  shows "assemble 0 bs 0 = 0 \<longleftrightarrow> bs = replicate 8 0"
proof -
  obtain a0 a1 a2 a3 a4 a5 a6 a7 where bs: "bs = [a0, a1, a2, a3, a4, a5, a6, a7]"
    using assms unfolding list8_conv by blast
  have z: "be_bytes 0 = [0, 0, 0, 0, 0, 0, 0, 0]"
    by (simp add: be_bytes_def le_bytes_unfold)
  have r: "replicate 8 (0 :: uchar) = [0, 0, 0, 0, 0, 0, 0, 0]"
    by (simp add: numeral_eq_Suc)
  show ?thesis
  proof
    assume "assemble 0 bs 0 = 0"
    then have "be_bytes 0 = bs"
      using be_bytes_assemble [of a0 a1 a2 a3 a4 a5 a6 a7] by (simp add: bs)
    then show "bs = replicate 8 0"
      unfolding r z by simp
  next
    assume "bs = replicate 8 0"
    then show "assemble 0 bs 0 = 0"
      unfolding r by (simp add: assemble_8)
  qed
qed

lemma read_record_zero_iff:
  assumes "read_record be f = (Some read_val, evs)"
  shows "read_val = 0 \<longleftrightarrow> take 8 f = replicate 8 0"
proof -
  have l: "8 \<le> length f"
    using assms by (cases "length f < 8") (simp_all add: read_record_short)
  then have v: "read_val = assemble 0 (if be then take 8 f else rev (take 8 f)) 0"
    using assms by (simp add: read_record_full)
  have "rev (take 8 f) = replicate 8 0 \<longleftrightarrow> take 8 f = replicate 8 0"
    by (metis rev_replicate rev_rev_ident)
  then show ?thesis
    using l by (cases be) (simp_all add: v assemble_zero_iff)
qed

lemma resident_twin:
  fixes v :: uintptr_t
  assumes "\<not> bit v 63"
  shows "page_present (push_bit 63 1 OR drop_bit 12 v)"
    and "pfn_mask (push_bit 63 1 OR drop_bit 12 v) * 4096 OR (take_bit 12 v AND 4095) = v"
proof -
  show "page_present (push_bit 63 1 OR drop_bit 12 v)"
    unfolding page_present_bit by (simp add: bit_simps)
  have m: "x * 4096 = push_bit 12 x" for x :: uintptr_t
    by (simp add: push_bit_eq_mult)
  have k: "(4095 :: uintptr_t) = mask 12"
    by (simp add: mask_eq_exp_minus_1)
  show "pfn_mask (push_bit 63 1 OR drop_bit 12 v) * 4096 OR (take_bit 12 v AND 4095) = v"
    unfolding pfn_mask_take_bit m k
  proof (rule bit_word_eqI)
    fix n assume "n < LENGTH(64)"
    then show "bit (push_bit 12 (take_bit 55 (push_bit 63 1 OR drop_bit 12 v)) OR (take_bit 12 v AND mask 12)) n
               = bit v n"
      by (cases "n < 12") (auto simp: bit_simps)
  qed
qed

text \<open>
  Claim C10. On the path of claim C3 the returned word is the assembled value itself. It is
  0 exactly when the eight bytes read are all zero. Any such value is also what the
  function returns for a resident page: on a host with pages of 4096 bytes, the present
  record with page frame number \<open>read_val >> 12\<close>, asked at a virtual address with the low
  12 bits of \<open>read_val\<close>, resolves to \<open>read_val\<close>; the returned word alone does not tell
  the two apart.
\<close>

theorem nonresident_return_value:
  assumes "fopen_ok h" and "getpagesize h \<noteq> 0"
    and "fseek_ok h (virt_addr div scast (getpagesize h) * 8)"
    and "read_record (is_bigendian h) (pagemap_from h (virt_addr div scast (getpagesize h) * 8))
           = (Some read_val, evs)"
    and "\<not> bit read_val 63"
  shows "map_option fst (virtual_to_physical_address h virt_addr) = Some read_val
       \<and> (map_option fst (virtual_to_physical_address h virt_addr) = Some 0 \<longleftrightarrow>
            take 8 (pagemap_from h (virt_addr div scast (getpagesize h) * 8)) = replicate 8 0)
       \<and> page_present (push_bit 63 1 OR drop_bit 12 read_val)
       \<and> map_option fst (virtual_to_physical_address
            (host_with be (push_bit 63 1 OR drop_bit 12 read_val)) (take_bit 12 read_val)) = Some read_val"
proof -
  have n: "\<not> page_present read_val"
    using assms(5) by (simp add: page_present_bit)
  have r: "map_option fst (virtual_to_physical_address h virt_addr) = Some read_val"
    using v2p_absent [OF assms(1-4) n] by simp
  have z: "read_val = 0 \<longleftrightarrow>
           take 8 (pagemap_from h (virt_addr div scast (getpagesize h) * 8)) = replicate 8 0"
    using assms(4) by (rule read_record_zero_iff)
  have t: "page_present (push_bit 63 1 OR drop_bit 12 read_val)"
    using assms(5) by (rule resident_twin(1))
  have "pfn_mask (push_bit 63 1 OR drop_bit 12 read_val) * 4096 OR (take_bit 12 read_val AND 4095)
          = read_val"
    using assms(5) by (rule resident_twin(2))
  then have w: "map_option fst (virtual_to_physical_address
            (host_with be (push_bit 63 1 OR drop_bit 12 read_val)) (take_bit 12 read_val)) = Some read_val"
    unfolding v2p_host_with using t by simp
  show ?thesis
    unfolding r w using z t by simp
qed

theorem nonresident_return_value_witness:
  "fopen_ok (host_with False 0x0000000000ABC123)
   \<and> getpagesize (host_with False 0x0000000000ABC123) \<noteq> 0
   \<and> fseek_ok (host_with False 0x0000000000ABC123) 0x22B0
   \<and> read_record False (pagemap_from (host_with False 0x0000000000ABC123) 0x22B0)
        = (Some 0x0000000000ABC123, replicate 8 Getc)
   \<and> \<not> bit (0x0000000000ABC123 :: uintptr_t) 63
   \<and> map_option fst (virtual_to_physical_address (host_with False 0x0000000000ABC123) 0x456789)
        = Some 0x0000000000ABC123
   \<and> map_option fst (virtual_to_physical_address (host_with False 0x8000000000000ABC) 0x123)
        = Some 0x0000000000ABC123"
proof -
  let ?h = "host_with False 0x0000000000ABC123"
  have o: "fopen_ok ?h" and p: "getpagesize ?h \<noteq> 0"
    by (simp_all add: host_with_def)
  have off: "(0x456789 :: uintptr_t) div scast (getpagesize ?h) * 8 = 0x22B0"
    by (simp add: host_with_def)
  have s: "fseek_ok ?h (0x456789 div scast (getpagesize ?h) * 8)"
    by (simp add: host_with_def)
  have r: "read_record (is_bigendian ?h) (pagemap_from ?h (0x456789 div scast (getpagesize ?h) * 8))
             = (Some 0x0000000000ABC123, replicate 8 Getc)"
    using read_record_native [of False "0x0000000000ABC123"] by (simp add: host_with_def)
  have b: "\<not> bit (0x0000000000ABC123 :: uintptr_t) 63"
    by simp
  have t: "push_bit 63 1 OR drop_bit 12 (0x0000000000ABC123 :: uintptr_t) = 0x8000000000000ABC"
    by simp
  have u: "take_bit 12 (0x0000000000ABC123 :: uintptr_t) = 0x123"
    by simp
  show ?thesis
    using o p s r b nonresident_return_value [OF o p s r b, of False]
    unfolding t u by (simp add: off host_with_def)
qed

section \<open>The file: offset, failures and release\<close>

text \<open>
  Claim C7. Whenever the file opens, the function seeks to
  \<open>virt_addr / getpagesize() * PAGEMAP_ENTRY\<close>, computed in 64-bit unsigned arithmetic
  with the page size the host returns to the call. For a positive page size of at least 8
  the product does not wrap, and the offset is the number (virtual address div page size)
  times 8.
\<close>

theorem seek_offset:
  assumes "fopen_ok h" and "getpagesize h \<noteq> 0"
  shows "(\<exists>r tr. virtual_to_physical_address h virt_addr =
            Some (r, Fopen True # Fseek (virt_addr div scast (getpagesize h) * 8) # tr))
       \<and> (\<not> bit (getpagesize h) 31 \<and> 8 \<le> unat (getpagesize h) \<longrightarrow>
            unat (virt_addr div scast (getpagesize h) * 8) = unat virt_addr div unat (getpagesize h) * 8)"
proof -
  let ?off = "virt_addr div scast (getpagesize h) * 8"
  have "\<exists>r tr. virtual_to_physical_address h virt_addr = Some (r, Fopen True # Fseek ?off # tr)"
  proof (cases "fseek_ok h ?off")
    case False
    then show ?thesis using assms by (simp add: v2p_seek_fails)
  next
    case True
    obtain rv evs where rr: "read_record (is_bigendian h) (pagemap_from h ?off) = (rv, evs)"
      by (cases "read_record (is_bigendian h) (pagemap_from h ?off)")
    show ?thesis
      using assms True rr
      by (cases rv) (simp_all add: virtual_to_physical_address_def Let_def)
  qed
  moreover have "unat ?off = unat virt_addr div unat (getpagesize h) * 8"
    if "\<not> bit (getpagesize h) 31" "8 \<le> unat (getpagesize h)"
    using that by (rule offset_exact)
  ultimately show ?thesis by blast
qed

theorem seek_offset_witness:
  "fopen_ok (host_with False 0x8000000000000123)
   \<and> getpagesize (host_with False 0x8000000000000123) \<noteq> 0
   \<and> (\<exists>r tr. virtual_to_physical_address (host_with False 0x8000000000000123) 0x456789 =
          Some (r, Fopen True # Fseek 0x22B0 # tr))
   \<and> fopen_ok ((host_with False 0x8000000000000123)\<lparr>getpagesize := 16384\<rparr>)
   \<and> getpagesize ((host_with False 0x8000000000000123)\<lparr>getpagesize := 16384\<rparr>) \<noteq> 0
   \<and> (\<exists>r tr. virtual_to_physical_address
          ((host_with False 0x8000000000000123)\<lparr>getpagesize := 16384\<rparr>) 0x456789 =
          Some (r, Fopen True # Fseek 0x8A8 # tr))
   \<and> \<not> bit (4096 :: 32 word) 31 \<and> 8 \<le> unat (4096 :: 32 word)
   \<and> unat (0x456789 div scast (4096 :: 32 word) * 8 :: uintptr_t) = 0x456789 div 4096 * 8"
proof -
  let ?h = "host_with False 0x8000000000000123"
  let ?h' = "?h\<lparr>getpagesize := 16384\<rparr>"
  have o: "fopen_ok ?h" and p: "getpagesize ?h \<noteq> 0"
    and o': "fopen_ok ?h'" and p': "getpagesize ?h' \<noteq> 0"
    by (simp_all add: host_with_def)
  have off: "(0x456789 :: uintptr_t) div scast (getpagesize ?h) * 8 = 0x22B0"
    and off': "(0x456789 :: uintptr_t) div scast (getpagesize ?h') * 8 = 0x8A8"
    and g: "getpagesize ?h = 4096"
    by (simp_all add: host_with_def)
  have b: "\<not> bit (4096 :: 32 word) 31" and u: "8 \<le> unat (4096 :: 32 word)"
    by simp_all
  show ?thesis
    using seek_offset [OF o p, of "0x456789"] seek_offset [OF o' p', of "0x456789"] o p o' p' b u
    unfolding off off' g by simp
qed

text \<open>
  Claim C8. Whenever \<open>fopen\<close> has returned a stream and the function returns, the last
  thing it does is \<open>fclose\<close>, and it closes the stream once: after a failed seek, after
  \<open>EOF\<close> in the first loop, and after the record has been decoded, present or not.
\<close>

theorem fclose_on_every_exit:
  assumes "fopen_ok h" and "getpagesize h \<noteq> 0"
  shows "\<exists>r mid. virtual_to_physical_address h virt_addr = Some (r, Fopen True # mid @ [Fclose])
                 \<and> Fclose \<notin> set mid"
proof -
  let ?off = "virt_addr div scast (getpagesize h) * 8"
  let ?f = "pagemap_from h ?off"
  show ?thesis
  proof (cases "fseek_ok h ?off")
    case False
    have "virtual_to_physical_address h virt_addr =
            Some (0, Fopen True # [Fseek ?off, seek_error, Perror ''Failed to do fseek!''] @ [Fclose])"
      using assms False by (simp add: v2p_seek_fails)
    moreover have "Fclose \<notin> set [Fseek ?off, seek_error, Perror ''Failed to do fseek!'']"
      by (simp add: seek_error_def)
    ultimately show ?thesis by blast
  next
    case True
    show ?thesis
    proof (cases "length ?f < 8")
      case short: True
      have "virtual_to_physical_address h virt_addr =
              Some (0, Fopen True # (Fseek ?off # replicate (Suc (length ?f)) Getc) @ [Fclose])"
        using v2p_eof [OF assms True short] by simp
      moreover have "Fclose \<notin> set (Fseek ?off # replicate (Suc (length ?f)) Getc)"
        by simp
      ultimately show ?thesis by blast
    next
      case False
      then have rr: "read_record (is_bigendian h) ?f =
          (Some (assemble 0 (if is_bigendian h then take 8 ?f else rev (take 8 ?f)) 0), replicate 8 Getc)"
        by (simp add: read_record_full)
      let ?v = "assemble 0 (if is_bigendian h then take 8 ?f else rev (take 8 ?f)) 0"
      show ?thesis
      proof (cases "page_present ?v")
        case present: True
        have "virtual_to_physical_address h virt_addr =
            Some (pfn_mask ?v * sysconf_PAGESIZE h OR (virt_addr AND (sysconf_PAGESIZE h - 1)),
                  Fopen True # (Fseek ?off # replicate 8 Getc) @ [Fclose])"
          using v2p_present [OF assms True rr present] by simp
        moreover have "Fclose \<notin> set (Fseek ?off # replicate 8 Getc)"
          by simp
        ultimately show ?thesis by blast
      next
        case absent: False
        have "virtual_to_physical_address h virt_addr =
            Some (?v, Fopen True # (Fseek ?off # replicate 8 Getc @ [not_present]) @ [Fclose])"
          using v2p_absent [OF assms True rr absent] by simp
        moreover have "Fclose \<notin> set (Fseek ?off # replicate 8 Getc @ [not_present])"
          by (simp add: not_present_def)
        ultimately show ?thesis by blast
      qed
    qed
  qed
qed

theorem fclose_on_every_exit_witness:
  "fopen_ok (host_with False 0x8000000000000123)
   \<and> getpagesize (host_with False 0x8000000000000123) \<noteq> 0
   \<and> (\<exists>r mid. virtual_to_physical_address (host_with False 0x8000000000000123) 0x456789 =
          Some (r, Fopen True # mid @ [Fclose]) \<and> Fclose \<notin> set mid)
   \<and> fopen_ok (unseekable (host_with False 0x8000000000000123))
   \<and> getpagesize (unseekable (host_with False 0x8000000000000123)) \<noteq> 0
   \<and> (\<exists>r mid. virtual_to_physical_address (unseekable (host_with False 0x8000000000000123)) 0x456789 =
          Some (r, Fopen True # mid @ [Fclose]) \<and> Fclose \<notin> set mid)
   \<and> fopen_ok (truncated 3 (host_with False 0x8000000000000123))
   \<and> getpagesize (truncated 3 (host_with False 0x8000000000000123)) \<noteq> 0
   \<and> (\<exists>r mid. virtual_to_physical_address (truncated 3 (host_with False 0x8000000000000123)) 0x456789 =
          Some (r, Fopen True # mid @ [Fclose]) \<and> Fclose \<notin> set mid)"
proof -
  let ?h = "host_with False 0x8000000000000123"
  have o: "fopen_ok ?h" and p: "getpagesize ?h \<noteq> 0"
    and o1: "fopen_ok (unseekable ?h)" and p1: "getpagesize (unseekable ?h) \<noteq> 0"
    and o2: "fopen_ok (truncated 3 ?h)" and p2: "getpagesize (truncated 3 ?h) \<noteq> 0"
    by (simp_all add: host_with_def unseekable_def truncated_def)
  show ?thesis
    using o p o1 p1 o2 p2
      fclose_on_every_exit [OF o p, of "0x456789"]
      fclose_on_every_exit [OF o1 p1, of "0x456789"]
      fclose_on_every_exit [OF o2 p2, of "0x456789"]
    by blast
qed

text \<open>
  Claim C5, as the code has it. When \<open>fopen\<close> fails the function prints
  \<open>Error! Cannot open /proc/self/pagemap. Please, run as root.\<close> and returns the word 0, for
  every virtual address, without a seek or a read. The function has no error type: its
  result is a \<open>uintptr_t\<close>.
\<close>

theorem open_failure:
  assumes "\<not> fopen_ok h"
  shows "virtual_to_physical_address h virt_addr =
           Some (0, [Fopen False,
                     Printf (''Error! Cannot open %s. Please, run as root.'' @ [newline])
                            [Str ''/proc/self/pagemap'']])"
  using assms by (simp add: v2p_open_fails open_error_def page_mapping_file_def)

theorem open_failure_witness:
  "\<not> fopen_ok ((host_with False 0x8000000000000123)\<lparr>fopen_ok := False\<rparr>)
   \<and> virtual_to_physical_address ((host_with False 0x8000000000000123)\<lparr>fopen_ok := False\<rparr>) 0x456789 =
         Some (0, [Fopen False,
                   Printf (''Error! Cannot open %s. Please, run as root.'' @ [newline])
                          [Str ''/proc/self/pagemap'']])"
proof -
  have n: "\<not> fopen_ok ((host_with False 0x8000000000000123)\<lparr>fopen_ok := False\<rparr>)"
    by simp
  show ?thesis
    using n open_failure [OF n, of "0x456789"] by blast
qed

text \<open>
  The word returned when \<open>fopen\<close> fails is not distinct: the function returns the same
  word 0 for a resident page with page frame number 0 at a page-aligned address, at the end
  of the data, and after a failed seek.
\<close>

theorem open_failure_not_distinct:
  "map_option fst (virtual_to_physical_address
     ((host_with False 0x8000000000000000)\<lparr>fopen_ok := False\<rparr>) 0x456000) = Some 0
   \<and> page_present 0x8000000000000000
   \<and> map_option fst (virtual_to_physical_address (host_with False 0x8000000000000000) 0x456000) = Some 0
   \<and> map_option fst (virtual_to_physical_address
         (truncated 3 (host_with False 0x8000000000000000)) 0x456000) = Some 0
   \<and> map_option fst (virtual_to_physical_address
         (unseekable (host_with False 0x8000000000000000)) 0x456000) = Some 0"
proof -
  let ?h = "host_with False 0x8000000000000000"
  have "map_option fst (virtual_to_physical_address (?h\<lparr>fopen_ok := False\<rparr>) 0x456000) = Some 0"
    by (simp add: v2p_open_fails)
  moreover have p: "page_present 0x8000000000000000"
    by (simp add: page_present_def)
  moreover have "map_option fst (virtual_to_physical_address ?h 0x456000) = Some 0"
    unfolding v2p_host_with using p by (simp add: pfn_mask_def)
  moreover have "map_option fst (virtual_to_physical_address (truncated 3 ?h) 0x456000) = Some 0"
    by (subst v2p_eof) (simp_all add: truncated_def host_with_def)
  moreover have "map_option fst (virtual_to_physical_address (unseekable ?h) 0x456000) = Some 0"
    by (subst v2p_seek_fails) (simp_all add: unseekable_def host_with_def)
  ultimately show ?thesis by blast
qed

text \<open>
  Claim C6, as the code has it. After a successful seek the function calls \<open>getc\<close> until
  it has eight bytes. If \<open>EOF\<close> comes first (fewer than eight bytes are left) it closes the
  file and returns the word 0 without printing anything; if eight bytes are there it makes
  exactly eight calls. The function has no error type; what sets this path apart from a
  page that is not present is that \<open>Page not present\<close> is not printed.
\<close>

theorem end_of_data:
  assumes "fopen_ok h" and "getpagesize h \<noteq> 0"
    and "fseek_ok h (virt_addr div scast (getpagesize h) * 8)"
  shows "(length (pagemap_from h (virt_addr div scast (getpagesize h) * 8)) < PAGEMAP_ENTRY \<longrightarrow>
            virtual_to_physical_address h virt_addr =
              Some (0, [Fopen True, Fseek (virt_addr div scast (getpagesize h) * 8)] @
                       replicate (Suc (length (pagemap_from h (virt_addr div scast (getpagesize h) * 8)))) Getc @
                       [Fclose]))
       \<and> (PAGEMAP_ENTRY \<le> length (pagemap_from h (virt_addr div scast (getpagesize h) * 8)) \<longrightarrow>
            (\<exists>r tr. virtual_to_physical_address h virt_addr =
               Some (r, [Fopen True, Fseek (virt_addr div scast (getpagesize h) * 8)] @
                        replicate PAGEMAP_ENTRY Getc @ tr) \<and> Getc \<notin> set tr))"
proof -
  let ?off = "virt_addr div scast (getpagesize h) * 8"
  let ?f = "pagemap_from h ?off"
  have "virtual_to_physical_address h virt_addr =
          Some (0, [Fopen True, Fseek ?off] @ replicate (Suc (length ?f)) Getc @ [Fclose])"
    if "length ?f < PAGEMAP_ENTRY"
    using v2p_eof [OF assms] that by simp
  moreover have "\<exists>r tr. virtual_to_physical_address h virt_addr =
          Some (r, [Fopen True, Fseek ?off] @ replicate PAGEMAP_ENTRY Getc @ tr) \<and> Getc \<notin> set tr"
    if full: "PAGEMAP_ENTRY \<le> length ?f"
  proof -
    let ?v = "assemble 0 (if is_bigendian h then take 8 ?f else rev (take 8 ?f)) 0"
    have rr: "read_record (is_bigendian h) ?f = (Some ?v, replicate 8 Getc)"
      using full by (simp add: read_record_full)
    show ?thesis
    proof (cases "page_present ?v")
      case True
      have "virtual_to_physical_address h virt_addr =
          Some (pfn_mask ?v * sysconf_PAGESIZE h OR (virt_addr AND (sysconf_PAGESIZE h - 1)),
                [Fopen True, Fseek ?off] @ replicate PAGEMAP_ENTRY Getc @ [Fclose])"
        using v2p_present [OF assms rr True] by simp
      moreover have "Getc \<notin> set [Fclose]" by simp
      ultimately show ?thesis by blast
    next
      case False
      have "virtual_to_physical_address h virt_addr =
          Some (?v, [Fopen True, Fseek ?off] @ replicate PAGEMAP_ENTRY Getc @ [not_present, Fclose])"
        using v2p_absent [OF assms rr False] by simp
      moreover have "Getc \<notin> set [not_present, Fclose]" by (simp add: not_present_def)
      ultimately show ?thesis by blast
    qed
  qed
  ultimately show ?thesis by blast
qed

theorem end_of_data_witness:
  "fopen_ok (truncated 3 (host_with False 0x8000000000000123))
   \<and> getpagesize (truncated 3 (host_with False 0x8000000000000123)) \<noteq> 0
   \<and> fseek_ok (truncated 3 (host_with False 0x8000000000000123)) 0x22B0
   \<and> length (pagemap_from (truncated 3 (host_with False 0x8000000000000123)) 0x22B0) < PAGEMAP_ENTRY
   \<and> virtual_to_physical_address (truncated 3 (host_with False 0x8000000000000123)) 0x456789 =
        Some (0, [Fopen True, Fseek 0x22B0, Getc, Getc, Getc, Getc, Fclose])
   \<and> fopen_ok (host_with False 0x8000000000000123)
   \<and> getpagesize (host_with False 0x8000000000000123) \<noteq> 0
   \<and> fseek_ok (host_with False 0x8000000000000123) 0x22B0
   \<and> PAGEMAP_ENTRY \<le> length (pagemap_from (host_with False 0x8000000000000123) 0x22B0)
   \<and> (\<exists>r tr. virtual_to_physical_address (host_with False 0x8000000000000123) 0x456789 =
         Some (r, [Fopen True, Fseek 0x22B0] @ replicate PAGEMAP_ENTRY Getc @ tr) \<and> Getc \<notin> set tr)"
proof -
  let ?h = "host_with False 0x8000000000000123"
  let ?t = "truncated 3 ?h"
  have o: "fopen_ok ?t" and p: "getpagesize ?t \<noteq> 0"
    and o': "fopen_ok ?h" and p': "getpagesize ?h \<noteq> 0"
    by (simp_all add: truncated_def host_with_def)
  have off: "(0x456789 :: uintptr_t) div scast (getpagesize ?t) * 8 = 0x22B0"
    and off': "(0x456789 :: uintptr_t) div scast (getpagesize ?h) * 8 = 0x22B0"
    by (simp_all add: truncated_def host_with_def)
  have s: "fseek_ok ?t (0x456789 div scast (getpagesize ?t) * 8)"
    and s': "fseek_ok ?h (0x456789 div scast (getpagesize ?h) * 8)"
    by (simp_all add: truncated_def host_with_def)
  have l: "length (pagemap_from ?t 0x22B0) = 3" and l': "length (pagemap_from ?h 0x22B0) = 8"
    by (simp_all add: truncated_def host_with_def)
  show ?thesis
    using o p s o' p' s' end_of_data [OF o p s] end_of_data [OF o' p' s']
    unfolding off off' l l' by (simp add: numeral_eq_Suc)
qed

text \<open>
  The word returned at the end of the data is the word returned for a record of eight zero
  bytes, which is a page that is not present.
\<close>

theorem end_of_data_not_distinct:
  "map_option fst (virtual_to_physical_address (truncated 3 (host_with False 0)) 0x456789) = Some 0
   \<and> \<not> page_present 0
   \<and> map_option fst (virtual_to_physical_address (host_with False 0) 0x456789) = Some 0"
proof -
  have "map_option fst (virtual_to_physical_address (truncated 3 (host_with False 0)) 0x456789) = Some 0"
    by (subst v2p_eof) (simp_all add: truncated_def host_with_def)
  moreover have n: "\<not> page_present 0"
    by (simp add: page_present_def)
  moreover have "map_option fst (virtual_to_physical_address (host_with False 0) 0x456789) = Some 0"
    unfolding v2p_host_with using n by simp
  ultimately show ?thesis by blast
qed

section \<open>The driver\<close>

declare main_loop.simps [simp del]

lemma main_loop_zero: "main_loop h 0 inp = (Exited 0, [])"
  by (simp add: main_loop.simps)

lemma main_loop_eof: "addr \<noteq> 0 \<Longrightarrow> main_loop h addr [] = (Aborted, [prompt])"
  by (simp add: main_loop.simps word_greater_zero_iff)

lemma main_loop_mismatch: "addr \<noteq> 0 \<Longrightarrow> main_loop h addr (Mismatch # inp) = (Aborted, [prompt])"
  by (simp add: main_loop.simps word_greater_zero_iff)

lemma main_loop_scanned:
  "addr \<noteq> 0 \<Longrightarrow> virtual_to_physical_address h addr' = Some (phys_addr, evs) \<Longrightarrow>
   main_loop h addr (Scanned addr' # inp) =
     (fst (main_loop h addr' inp),
      [prompt] @ evs @ [report addr' phys_addr] @ snd (main_loop h addr' inp))"
  by (subst main_loop.simps) (simp add: word_greater_zero_iff split: prod.split)

lemma v2p_returns:
  assumes "getpagesize h \<noteq> 0"
  shows "\<exists>phys_addr evs. virtual_to_physical_address h virt_addr = Some (phys_addr, evs)
                        \<and> count_list evs prompt = 0"
proof -
  let ?off = "virt_addr div scast (getpagesize h) * 8"
  obtain rv evs where rr: "read_record (is_bigendian h) (pagemap_from h ?off) = (rv, evs)"
    by (cases "read_record (is_bigendian h) (pagemap_from h ?off)")
  have e: "count_list evs prompt = 0"
    using rr
    by (cases "length (pagemap_from h ?off) < 8")
       (auto simp: read_record_short read_record_full prompt_def count_list_0_iff)
  show ?thesis
    using assms rr e
    by (cases rv)
       (simp_all add: virtual_to_physical_address_def Let_def prompt_def open_error_def
          seek_error_def not_present_def)
qed

lemma main_loop_sentinel:
  assumes "getpagesize h \<noteq> 0" and "0 \<notin> set as" and "addr \<noteq> 0"
  shows "fst (main_loop h addr (map Scanned as @ Scanned 0 # rest)) = Exited 0
       \<and> count_list (snd (main_loop h addr (map Scanned as @ Scanned 0 # rest))) prompt = Suc (length as)"
  using assms(2,3)
proof (induction as arbitrary: addr)
  case Nil
  obtain p evs where v: "virtual_to_physical_address h 0 = Some (p, evs)" "count_list evs prompt = 0"
    using v2p_returns [OF assms(1)] by blast
  show ?case
    using Nil v by (simp add: main_loop_scanned main_loop_zero report_def prompt_def)
next
  case (Cons a as)
  obtain p evs where v: "virtual_to_physical_address h a = Some (p, evs)" "count_list evs prompt = 0"
    using v2p_returns [OF assms(1)] by blast
  have "a \<noteq> 0" "0 \<notin> set as" using Cons.prems by auto
  then show ?case
    using Cons.IH [of a] Cons.prems v
    by (simp add: main_loop_scanned report_def prompt_def)
qed

lemma main_loop_no_sentinel:
  assumes "getpagesize h \<noteq> 0" and "0 \<notin> set as" and "addr \<noteq> 0"
  shows "fst (main_loop h addr (map Scanned as)) = Aborted
       \<and> fst (main_loop h addr (map Scanned as @ Mismatch # rest)) = Aborted"
  using assms(2,3)
proof (induction as arbitrary: addr)
  case Nil
  then show ?case by (simp add: main_loop_eof main_loop_mismatch)
next
  case (Cons a as)
  obtain p evs where v: "virtual_to_physical_address h a = Some (p, evs)"
    using v2p_returns [OF assms(1)] by blast
  have "a \<noteq> 0" "0 \<notin> set as" using Cons.prems by auto
  then show ?case
    using Cons.IH [of a] Cons.prems v by (simp add: main_loop_scanned)
qed

lemma main_unfold:
  assumes "virtual_to_physical_address h stack_addr = Some (phys_addr, evs)"
  shows "fst (main h argv stack_addr inp) = fst (main_loop h 1 inp)"
    and "count_list evs prompt = 0 \<Longrightarrow>
         count_list (snd (main h argv stack_addr inp)) prompt = count_list (snd (main_loop h 1 inp)) prompt"
  using assms by (simp_all add: main_def Let_def prompt_def split: prod.split)

lemma loop_round_resolves:
  assumes "getpagesize h \<noteq> 0"
  shows "\<exists>phys_addr evs. virtual_to_physical_address h a = Some (phys_addr, evs)
                        \<and> loop_round h a = [prompt] @ evs @ [report a phys_addr]"
proof -
  obtain p evs where "virtual_to_physical_address h a = Some (p, evs)"
    using v2p_returns [OF assms] by blast
  then show ?thesis by (simp add: loop_round_def)
qed

lemma main_loop_round:
  assumes "getpagesize h \<noteq> 0" and "addr \<noteq> 0"
  shows "main_loop h addr (Scanned a # inp) =
           (fst (main_loop h a inp), loop_round h a @ snd (main_loop h a inp))"
proof -
  obtain p evs where v: "virtual_to_physical_address h a = Some (p, evs)"
    using v2p_returns [OF assms(1)] by blast
  show ?thesis
    using main_loop_scanned [OF assms(2) v] v by (simp add: loop_round_def)
qed

lemma main_loop_sentinel_trace:
  assumes "getpagesize h \<noteq> 0" and "0 \<notin> set as" and "addr \<noteq> 0"
  shows "main_loop h addr (map Scanned as @ Scanned 0 # rest) =
           (Exited 0, concat (map (loop_round h) (as @ [0])))"
  using assms(2,3)
proof (induction as arbitrary: addr)
  case Nil
  then show ?case
    by (simp add: main_loop_round [OF assms(1)] main_loop_zero)
next
  case (Cons a as)
  then have "a \<noteq> 0" "0 \<notin> set as" by auto
  then show ?case
    using Cons.IH [of a] Cons.prems by (simp add: main_loop_round [OF assms(1)])
qed

lemma main_loop_abort_trace:
  assumes "getpagesize h \<noteq> 0" and "0 \<notin> set as" and "addr \<noteq> 0"
  shows "main_loop h addr (map Scanned as) = (Aborted, concat (map (loop_round h) as) @ [prompt])"
    and "main_loop h addr (map Scanned as @ Mismatch # rest) =
           (Aborted, concat (map (loop_round h) as) @ [prompt])"
  using assms(2,3)
proof (induction as arbitrary: addr)
  case Nil
  {
    case 1
    then show ?case by (simp add: main_loop_eof)
  next
    case 2
    then show ?case by (simp add: main_loop_mismatch)
  }
next
  case (Cons a as)
  {
    case 1
    then have "a \<noteq> 0" "0 \<notin> set as" by auto
    then show ?case
      using Cons.IH(1) [of a] 1 by (simp add: main_loop_round [OF assms(1)])
  next
    case 2
    then have "a \<noteq> 0" "0 \<notin> set as" by auto
    then show ?case
      using Cons.IH(2) [of a] 2 by (simp add: main_loop_round [OF assms(1)])
  }
qed

lemma main_startup:
  assumes "getpagesize h \<noteq> 0"
  shows "main h argv stack_addr inp =
           (fst (main_loop h 1 inp), startup h argv stack_addr @ snd (main_loop h 1 inp))"
proof -
  obtain p evs where v: "virtual_to_physical_address h stack_addr = Some (p, evs)"
    using v2p_returns [OF assms] by blast
  show ?thesis
    using v by (simp add: main_def startup_def Let_def split: prod.split)
qed

text \<open>
  Claim C9, as the code has it. The driver calls \<open>scanf("%lx", &addr)\<close> once per round.
  When the addresses read are nonzero and then a zero is read, it resolves and prints each
  of them in turn, the zero too, reads nothing after the zero and returns 0 from \<open>main\<close>.
  When the input ends, or holds something \<open>scanf\<close> cannot convert, before a zero was read,
  it has resolved and printed the addresses read so far and printed one more prompt; then
  \<open>scanf\<close> does not return 1, \<open>assert(ret == 1)\<close> fails and the process is aborted: it
  does not exit with code 0. In every round the address is resolved by a call of
  \<open>virtual_to_physical_address\<close> and printed with the word that call returned.
\<close>

theorem driver_termination:
  assumes "getpagesize h \<noteq> 0" and "0 \<notin> set as"
  shows "main h argv stack_addr (map Scanned as @ Scanned 0 # rest) =
           (Exited 0, startup h argv stack_addr @ concat (map (loop_round h) (as @ [0])))
       \<and> main h argv stack_addr (map Scanned as) =
           (Aborted, startup h argv stack_addr @ concat (map (loop_round h) as) @ [prompt])
       \<and> main h argv stack_addr (map Scanned as @ Mismatch # rest) =
           (Aborted, startup h argv stack_addr @ concat (map (loop_round h) as) @ [prompt])
       \<and> (\<exists>phys_addr evs. virtual_to_physical_address h a = Some (phys_addr, evs)
              \<and> loop_round h a = [prompt] @ evs @ [report a phys_addr])
       \<and> fst (main h argv stack_addr (map Scanned as @ Scanned 0 # rest)) = Exited 0
       \<and> count_list (snd (main h argv stack_addr (map Scanned as @ Scanned 0 # rest))) prompt
           = Suc (length as)
       \<and> fst (main h argv stack_addr (map Scanned as)) = Aborted
       \<and> fst (main h argv stack_addr (map Scanned as @ Mismatch # rest)) = Aborted"
proof -
  obtain p evs where v: "virtual_to_physical_address h stack_addr = Some (p, evs)"
    and c: "count_list evs prompt = 0"
    using v2p_returns [OF assms(1)] by blast
  have one: "(1 :: uintptr_t) \<noteq> 0" by simp
  have t1: "main h argv stack_addr (map Scanned as @ Scanned 0 # rest) =
           (Exited 0, startup h argv stack_addr @ concat (map (loop_round h) (as @ [0])))"
    unfolding main_startup [OF assms(1)] main_loop_sentinel_trace [OF assms one] by simp
  have t2: "main h argv stack_addr (map Scanned as) =
           (Aborted, startup h argv stack_addr @ concat (map (loop_round h) as) @ [prompt])"
    unfolding main_startup [OF assms(1)] main_loop_abort_trace(1) [OF assms one] by simp
  have t3: "main h argv stack_addr (map Scanned as @ Mismatch # rest) =
           (Aborted, startup h argv stack_addr @ concat (map (loop_round h) as) @ [prompt])"
    unfolding main_startup [OF assms(1)] main_loop_abort_trace(2) [OF assms one] by simp
  have t4: "\<exists>phys_addr evs. virtual_to_physical_address h a = Some (phys_addr, evs)
              \<and> loop_round h a = [prompt] @ evs @ [report a phys_addr]"
    using assms(1) by (rule loop_round_resolves)
  have t5: "fst (main h argv stack_addr (map Scanned as @ Scanned 0 # rest)) = Exited 0
       \<and> count_list (snd (main h argv stack_addr (map Scanned as @ Scanned 0 # rest))) prompt
           = Suc (length as)
       \<and> fst (main h argv stack_addr (map Scanned as)) = Aborted
       \<and> fst (main h argv stack_addr (map Scanned as @ Mismatch # rest)) = Aborted"
    using main_loop_sentinel [OF assms one, of rest] main_loop_no_sentinel [OF assms one, of rest]
    by (simp add: main_unfold(1) [OF v] main_unfold(2) [OF v c])
  show ?thesis
    using t1 t2 t3 t4 t5 by blast
qed

theorem driver_termination_witness:
  "getpagesize (host_with False 0x8000000000000123) \<noteq> 0
   \<and> 0 \<notin> set [0x456789 :: uintptr_t]
   \<and> main (host_with False 0x8000000000000123) [''./check_mapping''] 0x7FFC12345670
        [Scanned 0x456789, Scanned 0, Scanned 0x1000] =
      (Exited 0,
       [Printf (''Command line arguments :%s %s'' @ [newline]) [Str ''./check_mapping'', Null],
        Fopen True, Fseek 0x3FFE091A28] @ replicate 8 Getc @
       [Fclose,
        Printf (''stack is around here vaddr:%p paddr:%lx'' @ [newline]) [Num 0x7FFC12345670, Num 0x123670],
        prompt, Fopen True, Fseek 0x22B0] @ replicate 8 Getc @
       [Fclose, report 0x456789 0x123789,
        prompt, Fopen True, Fseek 0] @ replicate 8 Getc @
       [Fclose, report 0 0x123000])
   \<and> main (host_with False 0x8000000000000123) [''./check_mapping''] 0x7FFC12345670
        [Scanned 0x456789] =
      (Aborted,
       [Printf (''Command line arguments :%s %s'' @ [newline]) [Str ''./check_mapping'', Null],
        Fopen True, Fseek 0x3FFE091A28] @ replicate 8 Getc @
       [Fclose,
        Printf (''stack is around here vaddr:%p paddr:%lx'' @ [newline]) [Num 0x7FFC12345670, Num 0x123670],
        prompt, Fopen True, Fseek 0x22B0] @ replicate 8 Getc @
       [Fclose, report 0x456789 0x123789,
        prompt])
   \<and> main (host_with False 0x8000000000000123) [''./check_mapping''] 0x7FFC12345670
        [Scanned 0x456789, Mismatch, Scanned 0x1000] =
      (Aborted,
       [Printf (''Command line arguments :%s %s'' @ [newline]) [Str ''./check_mapping'', Null],
        Fopen True, Fseek 0x3FFE091A28] @ replicate 8 Getc @
       [Fclose,
        Printf (''stack is around here vaddr:%p paddr:%lx'' @ [newline]) [Num 0x7FFC12345670, Num 0x123670],
        prompt, Fopen True, Fseek 0x22B0] @ replicate 8 Getc @
       [Fclose, report 0x456789 0x123789,
        prompt])"
proof -
  let ?h = "host_with False 0x8000000000000123"
  have p: "getpagesize ?h \<noteq> 0"
    by (simp add: host_with_def)
  have z: "0 \<notin> set [0x456789 :: uintptr_t]"
    by simp
  have pp: "page_present 0x8000000000000123"
    by (simp add: page_present_def)
  have s: "startup ?h [''./check_mapping''] 0x7FFC12345670 =
       [Printf (''Command line arguments :%s %s'' @ [newline]) [Str ''./check_mapping'', Null],
        Fopen True, Fseek 0x3FFE091A28] @ replicate 8 Getc @
       [Fclose,
        Printf (''stack is around here vaddr:%p paddr:%lx'' @ [newline]) [Num 0x7FFC12345670, Num 0x123670]]"
    using pp by (simp add: startup_def v2p_host_with pfn_mask_def argv_arg_def PRIx64_def)
  have r1: "loop_round ?h 0x456789 =
       [prompt, Fopen True, Fseek 0x22B0] @ replicate 8 Getc @ [Fclose, report 0x456789 0x123789]"
    using pp by (simp add: loop_round_def v2p_host_with pfn_mask_def)
  have r0: "loop_round ?h 0 =
       [prompt, Fopen True, Fseek 0] @ replicate 8 Getc @ [Fclose, report 0 0x123000]"
    using pp by (simp add: loop_round_def v2p_host_with pfn_mask_def)
  show ?thesis
    using p z
      driver_termination [OF p z, of "[''./check_mapping'']" "0x7FFC12345670" "[Scanned 0x1000]" 0]
    unfolding s by (simp add: r1 r0)
qed

text \<open>
  At the end of the input the process does not exit with code 0: on an empty input, and on
  an input of one nonzero address, \<open>main\<close> is aborted by the assertion.
\<close>

theorem driver_aborts_at_end_of_input:
  "fst (main (host_with False 0x8000000000000123) [''./check_mapping''] 0x7FFC12345670 []) = Aborted
   \<and> fst (main (host_with False 0x8000000000000123) [''./check_mapping''] 0x7FFC12345670
          [Scanned 0x456789]) = Aborted
   \<and> Aborted \<noteq> Exited 0"
proof -
  let ?h = "host_with False 0x8000000000000123"
  have p: "page_present 0x8000000000000123"
    by (simp add: page_present_def)
  have one: "(1 :: uintptr_t) \<noteq> 0" and a: "(0x456789 :: uintptr_t) \<noteq> 0"
    by simp_all
  have "fst (main ?h [''./check_mapping''] 0x7FFC12345670 []) = Aborted"
    using p by (simp add: main_def v2p_host_with main_loop_eof [OF one])
  moreover have "main_loop ?h 1 [Scanned 0x456789] =
      (fst (main_loop ?h 0x456789 []),
       [prompt] @ ([Fopen True, Fseek (0x456789 div 4096 * 8)] @ replicate 8 Getc @ [Fclose]) @
       [report 0x456789 (pfn_mask 0x8000000000000123 * 4096 OR (0x456789 AND 4095))] @
       snd (main_loop ?h 0x456789 []))"
    using p by (intro main_loop_scanned [OF one]) (simp add: v2p_host_with)
  then have "fst (main ?h [''./check_mapping''] 0x7FFC12345670 [Scanned 0x456789]) = Aborted"
    using p by (simp add: main_def v2p_host_with main_loop_eof [OF a])
  ultimately show ?thesis by simp
qed

end
